theory Spec2Isabelle
  imports Main "HOL-Library.Word"
begin

unbundle bit_operations_syntax

section \<open>Data model of main.c\<close>

text \<open>
  The program is CCS C for a 16-bit PIC (\<open>#word IFS0\<close>, \<open>#int_timer2 level\<close>): \<open>int\<close> is
  16 bits wide. \<open>unsigned int16\<close> values are \<open>16 word\<close>, the \<open>unsigned int32\<close> accumulator
  of the averaging loop is \<open>32 word\<close>; \<open>+\<close> and \<open>-\<close> on words wrap as the C operators on
  unsigned operands do, \<open>\<le>\<close> and \<open><\<close> compare unsigned.

  \<open>cell_t\<close> is declared in main.h. Its fields are the ones main.c touches; the width of
  \<open>voltage\<close>, \<open>samples\<close> and \<open>average_voltage\<close> is the one of the cast
  \<open>(unsigned int16) (sum/N_SAMPLES)\<close> and of the \<open>%Lu\<close> print formats.
\<close>

record cell_t =
  voltage :: "16 word"
  samples :: "16 word list"
  average_voltage :: "16 word"
  discharge :: "8 word"
  temperature :: "16 word"
  ov_flag :: bool
  uv_flag :: bool
  ot_flag :: bool

text \<open>
  \<open>bms_page_t\<close>: \<open>voltages\<close> has \<open>N_CELLS_FINAL\<close> entries and \<open>temps\<close> has
  \<open>N_ADC_CHANNELS\<close>; both macros come from main.h, so the lengths of the lists stand for them.
\<close>

record bms_page_t =
  voltages :: "16 word list"
  temps :: "8 word list"
  current :: "16 word"
  page_discharge :: "32 word"

text \<open>
  The analog front end is driven through two chip-select pins and
  \<open>ltc6804_write_config\<close> (ltc6804.c). What main.c does to it is recorded as a log of
  events, in program order.
\<close>

datatype pin = CSBI1 | CSBI2

datatype hw_event = Output_low pin | Write_config "16 word" | Output_high pin

text \<open>
  The global variables. \<open>g_cell\<close> has \<open>N_CELLS\<close> entries (main.h), so \<open>length (g_cell s)\<close>
  stands for \<open>N_CELLS\<close>. The entries of \<open>g_temps\<close> are C floats: their type is left open
  (\<open>'f\<close>) and the cast to \<open>int8\<close> is a parameter of \<open>update_bms_page\<close>.
  \<open>g_discharge1\<close> and \<open>g_discharge2\<close> are defined in ltc6804.c; \<open>print_discharge_bits\<close>
  prints 16 bits of each. \<open>g_adc_data\<close> and \<open>g_ms\<close> are only used by the temperature
  conversion and the timer interrupt, which the main loop never reads, and are left out.
\<close>

record 'f bms =
  g_cell :: "cell_t list"
  g_temps :: "'f list"
  g_highest_voltage_cell_index :: nat
  g_lowest_voltage_cell_index :: nat
  g_discharge1 :: "16 word"
  g_discharge2 :: "16 word"
  g_bms_page :: bms_page_t
  hw_log :: "hw_event list"

section \<open>Operations of main.c\<close>

text \<open>
  Each function becomes a function from the state to the new state. The loops run over
  fixed index ranges and are folds over those ranges. \<open>convert_adc_data_to_temps\<close> and
  \<open>print_temperatures\<close> (floating point) and \<open>transmit_bms_page\<close> are not called from
  \<open>main\<close>; \<open>print_discharge_bits\<close> only prints. They are not modelled.
\<close>

subsection \<open>init_cells\<close>

definition clear_cell :: "cell_t \<Rightarrow> cell_t" where
  "clear_cell c = c\<lparr>voltage := 0, temperature := 0,
                     ov_flag := False, uv_flag := False, ot_flag := False\<rparr>"

definition set_discharge :: "nat \<Rightarrow> 8 word \<Rightarrow> cell_t list \<Rightarrow> cell_t list" where
  "set_discharge i d cs = cs[i := (cs ! i)\<lparr>discharge := d\<rparr>]"

definition init_cells :: "'f bms \<Rightarrow> 'f bms" where
  "init_cells s =
     s\<lparr>g_cell := set_discharge 3 0x08 (set_discharge 2 0x04 (set_discharge 1 0x02
                    (set_discharge 0 0x00 (map clear_cell (g_cell s))))),
       g_highest_voltage_cell_index := 0,
       g_lowest_voltage_cell_index := 0\<rparr>"

subsection \<open>get_highest_voltage_cell_index, get_lowest_voltage_cell_index\<close>

definition highest_step :: "cell_t list \<Rightarrow> nat \<Rightarrow> nat \<Rightarrow> nat" where
  "highest_step cs i highest =
     (if voltage (cs ! highest) \<le> voltage (cs ! i) then i else highest)"

definition get_highest_voltage_cell_index :: "'f bms \<Rightarrow> nat" where
  "get_highest_voltage_cell_index s =
     fold (highest_step (g_cell s)) [0..<length (g_cell s)] 0"

text \<open>One iteration of either loop: \<open>if (g_cell[i].average_voltage <=
  g_cell[lowest].average_voltage) lowest = i;\<close>\<close>

definition lowest_step :: "cell_t list \<Rightarrow> nat \<Rightarrow> nat \<Rightarrow> nat" where
  "lowest_step cs i lowest =
     (if average_voltage (cs ! i) \<le> average_voltage (cs ! lowest) then i else lowest)"

text \<open>The two loops, \<open>i = 0 .. 3\<close> then \<open>i = 12 .. 15\<close>, share the variable \<open>lowest\<close>.\<close>

definition get_lowest_voltage_cell_index :: "'f bms \<Rightarrow> nat" where
  "get_lowest_voltage_cell_index s =
     fold (lowest_step (g_cell s)) [12..<16]
       (fold (lowest_step (g_cell s)) [0..<4] 0)"

subsection \<open>print_cell_voltages: the moving average\<close>

text \<open>
  The inner loop body, for one \<open>j\<close>: \<open>sum += samples[j]; samples[j] = samples[j+1];\<close>.
  The addition reads \<open>samples[j]\<close> before the assignment overwrites it.
\<close>

definition shift_step :: "nat \<Rightarrow> 16 word list \<times> 32 word \<Rightarrow> 16 word list \<times> 32 word" where
  "shift_step j = (\<lambda>(smp, sum). (smp[j := smp ! (j + 1)], sum + ucast (smp ! j)))"

text \<open>
  The body of the outer loop for one cell; \<open>n\<close> is \<open>N_SAMPLES\<close> (main.h). The printf
  calls that follow the loop only write to the debug console.
\<close>

definition update_average :: "nat \<Rightarrow> cell_t \<Rightarrow> cell_t" where
  "update_average n c =
     (let (smp, sum) = fold shift_step [0..<n - 1] (samples c, 0);
          sum' = sum + ucast (voltage c);
          smp' = smp[n - 1 := voltage c]
      in c\<lparr>samples := smp', average_voltage := ucast (sum' div of_nat n)\<rparr>)"

definition print_cell_voltages :: "nat \<Rightarrow> 'f bms \<Rightarrow> 'f bms" where
  "print_cell_voltages n s = s\<lparr>g_cell := map (update_average n) (g_cell s)\<rparr>"

text \<open>One cycle seen from one cell: the read stores the raw sample \<open>v\<close> in \<open>voltage\<close>,
  then the averaging loop runs.\<close>

definition feed :: "nat \<Rightarrow> 16 word \<Rightarrow> cell_t \<Rightarrow> cell_t" where
  "feed n v c = update_average n (c\<lparr>voltage := v\<rparr>)"

subsection \<open>update_bms_page\<close>

definition copy_voltages :: "cell_t list \<Rightarrow> 16 word list \<Rightarrow> 16 word list" where
  "copy_voltages cs vs =
     fold (\<lambda>i v. v[i := average_voltage (cs ! i)]) [0..<min (length cs) (length vs)] vs"

definition update_bms_page :: "('f \<Rightarrow> 8 word) \<Rightarrow> 'f bms \<Rightarrow> 'f bms" where
  "update_bms_page int8_of s =
     s\<lparr>g_bms_page := (g_bms_page s)
         \<lparr>voltages := copy_voltages (g_cell s) (voltages (g_bms_page s)),
          temps := map int8_of (g_temps s),
          current := 0,
          page_discharge :=
            ucast (push_bit 4 (g_discharge2 s AND 0xF) OR (g_discharge1 s AND 0xF))\<rparr>\<rparr>"

subsection \<open>balance\<close>

text \<open>
  Modelled from the spec: \<open>ltc6804_read_cell_voltages\<close> (ltc6804.c is not among the
  sources) "fills \<open>raw_voltage\<close> for all populated slots"; it always succeeds. \<open>rd i\<close> is
  the reading the hardware returns for slot \<open>i\<close>.
\<close>

definition populated :: "nat list" where
  "populated = [0, 1, 2, 3, 12, 13, 14, 15]"

definition ltc6804_read_cell_voltages :: "(nat \<Rightarrow> 16 word) \<Rightarrow> 'f bms \<Rightarrow> 'f bms" where
  "ltc6804_read_cell_voltages rd s =
     s\<lparr>g_cell := fold (\<lambda>i cs. cs[i := (cs ! i)\<lparr>voltage := rd i\<rparr>]) populated (g_cell s)\<rparr>"

text \<open>
  \<open>decide\<close> is the condition of the \<open>if\<close> in both decision loops; \<open>thr\<close> is
  \<open>BALANCE_THRESHOLD\<close> (main.h). The operands of the subtraction are \<open>unsigned int16\<close>,
  so it wraps and the comparison is unsigned. \<open>decide_step\<close> is one iteration of a loop;
  \<open>off\<close> is 0 in the first loop and 12 in the second (\<open>1 << i\<close> and \<open>1 << (i - 12)\<close>).
\<close>

definition decide :: "16 word \<Rightarrow> cell_t \<Rightarrow> cell_t \<Rightarrow> bool" where
  "decide thr c r = (thr < average_voltage c - average_voltage r)"

definition decide_step :: "16 word \<Rightarrow> cell_t list \<Rightarrow> nat \<Rightarrow> nat \<Rightarrow> nat \<Rightarrow> 16 word \<Rightarrow> 16 word" where
  "decide_step thr cs min_idx off i d =
     (if decide thr (cs ! i) (cs ! min_idx)
      then d OR push_bit (i - off) 1
      else d AND NOT (push_bit (i - off) 1))"

definition balance :: "16 word \<Rightarrow> (nat \<Rightarrow> 16 word) \<Rightarrow> 'f bms \<Rightarrow> 'f bms" where
  "balance thr rd s =
     (let s1 = ltc6804_read_cell_voltages rd s;
          min_idx = get_lowest_voltage_cell_index s1;
          d1 = fold (decide_step thr (g_cell s1) min_idx 0) [0..<4] (g_discharge1 s1);
          d2 = fold (decide_step thr (g_cell s1) min_idx 12) [12..<16] (g_discharge2 s1)
      in s1\<lparr>g_discharge1 := d1, g_discharge2 := d2,
            hw_log := hw_log s1 @
              [Output_low CSBI1, Write_config d1, Output_high CSBI1,
               Output_low CSBI2, Write_config d1, Output_high CSBI2]\<rparr>)"

subsection \<open>One iteration of the loop of main\<close>

text \<open>
  \<open>rd1\<close> is what the read at the top of the loop returns, \<open>rd2\<close> what the read inside
  \<open>balance\<close> returns. \<open>print_discharge_bits\<close> and \<open>delay_ms\<close> change no variable.
\<close>

definition main_loop_body ::
  "16 word \<Rightarrow> nat \<Rightarrow> ('f \<Rightarrow> 8 word) \<Rightarrow> (nat \<Rightarrow> 16 word) \<Rightarrow> (nat \<Rightarrow> 16 word) \<Rightarrow> 'f bms \<Rightarrow> 'f bms" where
  "main_loop_body thr n int8_of rd1 rd2 s =
     update_bms_page int8_of
       (print_cell_voltages n
         (balance thr rd2
           (ltc6804_read_cell_voltages rd1 s)))"

section \<open>The packet tables of the CAN and telemetry header\<close>

text \<open>Each \<open>ENTRY(a, b, c, d)\<close> of an X-macro table is a tuple; the page \<open>d\<close> of a CAN
  entry is a buffer name and a byte offset into it.\<close>

definition CAN_ID_TABLE :: "(string \<times> nat \<times> nat \<times> string \<times> nat) list" where
  "CAN_ID_TABLE =
    [(''CAN_BPS_VOLTAGE1'',     0x600, 8, ''g_bps_voltage_page'', 0),
     (''CAN_BPS_VOLTAGE2'',     0x601, 8, ''g_bps_voltage_page'', 8),
     (''CAN_BPS_VOLTAGE3'',     0x602, 8, ''g_bps_voltage_page'', 16),
     (''CAN_BPS_VOLTAGE4'',     0x603, 6, ''g_bps_voltage_page'', 24),
     (''CAN_BPS_TEMPERATURE1'', 0x608, 8, ''g_bps_temperature_page'', 0),
     (''CAN_BPS_TEMPERATURE2'', 0x609, 8, ''g_bps_temperature_page'', 8),
     (''CAN_BPS_TEMPERATURE3'', 0x60A, 8, ''g_bps_temperature_page'', 16),
     (''CAN_BPS_CUR_BAL_STAT'', 0x60B, 8, ''g_bps_cur_bal_stat_page'', 0)]"

definition TELEM_ID_TABLE :: "(string \<times> nat \<times> nat \<times> string) list" where
  "TELEM_ID_TABLE =
    [(''TELEM_BPS_VOLTAGE'',      0x0B, 30, ''g_bps_voltage_page''),
     (''TELEM_BPS_TEMPERATURE'',  0x0D, 24, ''g_bps_temperature_page''),
     (''TELEM_BPS_CUR_BAL_STAT'', 0x11,  8, ''g_bps_cur_bal_stat_page'')]"

definition CAN_MISC_TABLE :: "(string \<times> nat) list" where
  "CAN_MISC_TABLE =
    [(''COMMAND_PMS_DISCONNECT_ARRAY'',  0x777),
     (''RESPONSE_PMS_DISCONNECT_ARRAY'', 0x778),
     (''COMMAND_ENABLE_BALANCING'',      0x888),
     (''COMMAND_EVDC_DRIVE'',            0x501),
     (''COMMAND_BPS_TRIP_SIGNAL'',       0x303),
     (''RESPONSE_MPPT1'',                0x771),
     (''RESPONSE_MPPT2'',                0x772),
     (''RESPONSE_MPPT3'',                0x773),
     (''RESPONSE_MPPT4'',                0x774)]"

text \<open>The expansions \<open>EXPAND_AS_CAN_ID_ARRAY\<close>, \<open>EXPAND_AS_CAN_LEN_ARRAY\<close> and their
  telemetry and miscellaneous counterparts.\<close>

definition CAN_ID_ARRAY :: "nat list" where
  "CAN_ID_ARRAY = map (\<lambda>(a, b, c, d). b) CAN_ID_TABLE"

definition CAN_LEN_ARRAY :: "nat list" where
  "CAN_LEN_ARRAY = map (\<lambda>(a, b, c, d). c) CAN_ID_TABLE"

definition TELEM_ID_ARRAY :: "nat list" where
  "TELEM_ID_ARRAY = map (\<lambda>(a, b, c, d). b) TELEM_ID_TABLE"

definition TELEM_LEN_ARRAY :: "nat list" where
  "TELEM_LEN_ARRAY = map (\<lambda>(a, b, c, d). c) TELEM_ID_TABLE"

definition MISC_ID_ARRAY :: "nat list" where
  "MISC_ID_ARRAY = map (\<lambda>(a, b). b) CAN_MISC_TABLE"

section \<open>Concrete inputs\<close>

text \<open>
  States on which the theorems below are evaluated: sixteen cell slots with the given
  averages, a history of four samples per cell (\<open>N_SAMPLES = 4\<close>), both masks clear, a
  page with eight voltage entries and two temperature channels.
\<close>

definition example_cell :: "16 word \<Rightarrow> cell_t" where
  "example_cell a = \<lparr>voltage = 0, samples = [0, 0, 0, 0], average_voltage = a, discharge = 0,
                     temperature = 0, ov_flag = False, uv_flag = False, ot_flag = False\<rparr>"

definition example_state :: "16 word list \<Rightarrow> int bms" where
  "example_state avgs =
     \<lparr>g_cell = map example_cell avgs, g_temps = [0, 0],
      g_highest_voltage_cell_index = 0, g_lowest_voltage_cell_index = 0,
      g_discharge1 = 0, g_discharge2 = 0,
      g_bms_page = \<lparr>voltages = [0, 0, 0, 0, 0, 0, 0, 0], temps = [0, 0], current = 0,
                    page_discharge = 0\<rparr>,
      hw_log = []\<rparr>"

text \<open>All eight populated cells at 100.\<close>

definition averages_level :: "16 word list" where
  "averages_level = [100, 100, 100, 100, 0, 0, 0, 0, 0, 0, 0, 0, 100, 100, 100, 100]"

text \<open>The same, but the Upper cell in slot 12 at 40.\<close>

definition averages_upper_low :: "16 word list" where
  "averages_upper_low = [100, 100, 100, 100, 0, 0, 0, 0, 0, 0, 0, 0, 40, 100, 100, 100]"

text \<open>Slot \<open>i\<close> at \<open>i + 1\<close>.\<close>

definition averages_counting :: "16 word list" where
  "averages_counting = [1, 2, 3, 4, 5, 6, 7, 8, 9, 10, 11, 12, 13, 14, 15, 16]"

text \<open>A reading of 4000 for slot 2 and 0 for every other slot.\<close>

definition reading_slot2 :: "nat \<Rightarrow> 16 word" where
  "reading_slot2 i = (if i = 2 then 4000 else 0)"

text \<open>A page with sixteen voltage entries instead of eight.\<close>

definition wide_page :: "int bms \<Rightarrow> int bms" where
  "wide_page s = s\<lparr>g_bms_page := (g_bms_page s)
     \<lparr>voltages := [0, 0, 0, 0, 0, 0, 0, 0, 0, 0, 0, 0, 0, 0, 0, 0]\<rparr>\<rparr>"

section \<open>Properties of the packet tables\<close>

text \<open>
  C8. In each sub-table the numeric identifiers are pairwise distinct (8 CAN entries,
  3 telemetry entries, 9 command/response entries), the byte lengths are the declared
  ones, and the entry with telemetry identifier 0x0B has length 30, the entry with CAN
  identifier 0x603 has length 6.
\<close>

theorem registry_ids_distinct_and_lengths:
  "distinct CAN_ID_ARRAY \<and> length CAN_ID_TABLE = 8
   \<and> distinct TELEM_ID_ARRAY \<and> length TELEM_ID_TABLE = 3
   \<and> distinct MISC_ID_ARRAY \<and> length CAN_MISC_TABLE = 9
   \<and> CAN_LEN_ARRAY = [8, 8, 8, 6, 8, 8, 8, 8]
   \<and> TELEM_LEN_ARRAY = [30, 24, 8]
   \<and> map_of (zip TELEM_ID_ARRAY TELEM_LEN_ARRAY) 0x0B = Some 30
   \<and> map_of (zip CAN_ID_ARRAY CAN_LEN_ARRAY) 0x603 = Some 6"
  by (simp add: CAN_ID_ARRAY_def CAN_LEN_ARRAY_def TELEM_ID_ARRAY_def TELEM_LEN_ARRAY_def
      MISC_ID_ARRAY_def CAN_ID_TABLE_def TELEM_ID_TABLE_def CAN_MISC_TABLE_def)

section \<open>Reference selection\<close>

text \<open>
  A scan with \<open>lowest_step\<close> over increasing indices ends on an index of the scan whose
  average is minimal, and on the greatest such index.
\<close>

lemma fold_lowest_step:
  "sorted (lo # js) \<Longrightarrow>
   fold (lowest_step cs) js lo \<in> insert lo (set js) \<and>
   (\<forall>i \<in> insert lo (set js).
      average_voltage (cs ! fold (lowest_step cs) js lo) \<le> average_voltage (cs ! i) \<and>
      (average_voltage (cs ! i) = average_voltage (cs ! fold (lowest_step cs) js lo)
         \<longrightarrow> i \<le> fold (lowest_step cs) js lo))"
proof (induction js arbitrary: lo)
  case Nil
  show ?case by simp
next
  case (Cons x xs)
  let ?lo' = "lowest_step cs x lo"
  let ?r = "fold (lowest_step cs) xs ?lo'"
  have lo_x: "lo \<le> x" and x_xs: "\<forall>y \<in> set xs. x \<le> y" and lo_xs: "\<forall>y \<in> set xs. lo \<le> y"
    and sxs: "sorted xs"
    using Cons.prems by auto
  have "sorted (?lo' # xs)"
    using x_xs lo_xs sxs by (simp add: lowest_step_def)
  from Cons.IH [OF this]
  have mem: "?r \<in> insert ?lo' (set xs)"
    and le: "\<And>i. i \<in> insert ?lo' (set xs) \<Longrightarrow>
               average_voltage (cs ! ?r) \<le> average_voltage (cs ! i)"
    and tie: "\<And>i. i \<in> insert ?lo' (set xs) \<Longrightarrow>
                average_voltage (cs ! i) = average_voltage (cs ! ?r) \<Longrightarrow> i \<le> ?r"
    by blast+
  show ?case
  proof (cases "average_voltage (cs ! x) \<le> average_voltage (cs ! lo)")
    case True
    then have lo': "?lo' = x" by (simp add: lowest_step_def)
    have rx: "x \<le> ?r" using mem x_xs lo' by auto
    have "average_voltage (cs ! ?r) \<le> average_voltage (cs ! x)" using le [of x] lo' by simp
    with True have "average_voltage (cs ! ?r) \<le> average_voltage (cs ! lo)" by simp
    with mem le tie lo' rx lo_x show ?thesis by auto
  next
    case False
    then have lo': "?lo' = lo" by (simp add: lowest_step_def)
    have "average_voltage (cs ! ?r) \<le> average_voltage (cs ! lo)" using le [of lo] lo' by simp
    with False have "average_voltage (cs ! ?r) < average_voltage (cs ! x)" by simp
    with mem le tie lo' show ?thesis by auto
  qed
qed

lemma fold_lowest_step_mem:
  "fold (lowest_step cs) js lo \<in> insert lo (set js)"
  by (induction js arbitrary: lo) (auto simp: lowest_step_def)

lemma lowest_step_cong:
  "average_voltage (cs' ! i) = average_voltage (cs ! i) \<Longrightarrow>
   average_voltage (cs' ! lo) = average_voltage (cs ! lo) \<Longrightarrow>
   lowest_step cs' i lo = lowest_step cs i lo"
  by (simp add: lowest_step_def)

lemma fold_lowest_step_cong:
  "(\<And>i. i \<in> insert lo (set js) \<Longrightarrow> average_voltage (cs' ! i) = average_voltage (cs ! i)) \<Longrightarrow>
   fold (lowest_step cs') js lo = fold (lowest_step cs) js lo"
proof (induction js arbitrary: lo)
  case Nil
  show ?case by simp
next
  case (Cons x xs)
  have eq: "lowest_step cs' x lo = lowest_step cs x lo"
    by (rule lowest_step_cong) (simp_all add: Cons.prems)
  have "fold (lowest_step cs') xs (lowest_step cs x lo)
        = fold (lowest_step cs) xs (lowest_step cs x lo)"
    by (rule Cons.IH) (auto simp: lowest_step_def Cons.prems)
  with eq show ?case by simp
qed

text \<open>The two loops of \<open>get_lowest_voltage_cell_index\<close> are one scan of the eight
  populated slots; its first step compares slot 0 with itself.\<close>

lemma get_lowest_as_fold:
  "get_lowest_voltage_cell_index s = fold (lowest_step (g_cell s)) [1, 2, 3, 12, 13, 14, 15] 0"
proof -
  have a: "[0..<4] = [0, 1, 2, 3]" by (simp add: upt_rec)
  have b: "[12..<16] = [12, 13, 14, 15]" by (simp add: upt_rec)
  show ?thesis
    by (simp add: get_lowest_voltage_cell_index_def a b lowest_step_def)
qed

lemma get_lowest_populated: "get_lowest_voltage_cell_index s \<in> set populated"
  using fold_lowest_step_mem [of "g_cell s" "[1, 2, 3, 12, 13, 14, 15]" 0]
  by (simp add: get_lowest_as_fold populated_def)

lemma get_lowest_cong:
  assumes "\<And>i. i \<in> set populated \<Longrightarrow>
             average_voltage (g_cell s' ! i) = average_voltage (g_cell s ! i)"
  shows "get_lowest_voltage_cell_index s' = get_lowest_voltage_cell_index s"
  unfolding get_lowest_as_fold
  by (rule fold_lowest_step_cong) (use assms in \<open>simp add: populated_def\<close>)

lemma get_lowest_scan:
  "get_lowest_voltage_cell_index s \<in> set populated \<and>
   (\<forall>i \<in> set populated.
      average_voltage (g_cell s ! get_lowest_voltage_cell_index s)
        \<le> average_voltage (g_cell s ! i) \<and>
      (average_voltage (g_cell s ! i)
         = average_voltage (g_cell s ! get_lowest_voltage_cell_index s)
       \<longrightarrow> i \<le> get_lowest_voltage_cell_index s))"
proof -
  have "sorted (0 # [1, 2, 3, 12, 13, 14, 15 :: nat])" by simp
  from fold_lowest_step [OF this, of "g_cell s"]
  show ?thesis
    unfolding get_lowest_as_fold populated_def by simp
qed

lemma get_lowest_le:
  "i \<in> set populated \<Longrightarrow>
   average_voltage (g_cell s ! get_lowest_voltage_cell_index s) \<le> average_voltage (g_cell s ! i)"
  using get_lowest_scan [of s] by blast

text \<open>
  C6. \<open>get_lowest_voltage_cell_index\<close> returns one of the slots it scans (0 to 3 and 12
  to 15); the average of that slot is less than or equal to the average of every slot it
  scans; and every scanned slot with the same average has an index that is not greater,
  so among the slots attaining the minimum the one scanned last is returned.
\<close>

theorem lowest_index_is_last_minimum:
  "get_lowest_voltage_cell_index s \<in> set populated \<and>
   (\<forall>i \<in> set populated.
      average_voltage (g_cell s ! get_lowest_voltage_cell_index s)
        \<le> average_voltage (g_cell s ! i) \<and>
      (average_voltage (g_cell s ! i)
         = average_voltage (g_cell s ! get_lowest_voltage_cell_index s)
       \<longrightarrow> i \<le> get_lowest_voltage_cell_index s))"
  by (rule get_lowest_scan)

text \<open>
  With all eight populated cells at 100, slot 12 ties with the returned slot, which
  therefore lies at or after slot 12: it is slot 15.
\<close>

theorem lowest_index_is_last_minimum_witness:
  "12 \<in> set populated
   \<and> average_voltage (g_cell (example_state averages_level) ! 12)
       = average_voltage (g_cell (example_state averages_level)
           ! get_lowest_voltage_cell_index (example_state averages_level))
   \<and> 12 \<le> get_lowest_voltage_cell_index (example_state averages_level)
   \<and> get_lowest_voltage_cell_index (example_state averages_level) = 15"
proof -
  have h1: "12 \<in> set populated" by (simp add: populated_def)
  have h2: "average_voltage (g_cell (example_state averages_level) ! 12)
       = average_voltage (g_cell (example_state averages_level)
           ! get_lowest_voltage_cell_index (example_state averages_level))"
    by code_simp
  have e: "get_lowest_voltage_cell_index (example_state averages_level) = 15"
    by code_simp
  from lowest_index_is_last_minimum [of "example_state averages_level"] h1 h2
  have "12 \<le> get_lowest_voltage_cell_index (example_state averages_level)" by blast
  with h1 h2 e show ?thesis by blast
qed

section \<open>The decision loops of balance\<close>

subsection \<open>Reading raw voltages leaves the averages alone\<close>

lemma read_average_nth:
  "average_voltage (g_cell (ltc6804_read_cell_voltages rd s) ! i) = average_voltage (g_cell s ! i)"
proof -
  have step: "average_voltage (cs[j := (cs ! j)\<lparr>voltage := v\<rparr>] ! i) = average_voltage (cs ! i)"
    for cs :: "cell_t list" and j v
  proof (cases "j < length cs")
    case True
    then show ?thesis by (simp add: nth_list_update)
  next
    case False
    then have "cs[j := (cs ! j)\<lparr>voltage := v\<rparr>] = cs" by (intro list_update_beyond) simp
    then show ?thesis by simp
  qed
  have "average_voltage (fold (\<lambda>i cs. cs[i := (cs ! i)\<lparr>voltage := rd i\<rparr>]) js cs ! i)
      = average_voltage (cs ! i)" for js and cs :: "cell_t list"
    by (induction js arbitrary: cs) (simp_all add: step)
  then show ?thesis by (simp add: ltc6804_read_cell_voltages_def)
qed

lemma read_other_fields:
  "g_discharge1 (ltc6804_read_cell_voltages rd s) = g_discharge1 s"
  "g_discharge2 (ltc6804_read_cell_voltages rd s) = g_discharge2 s"
  "hw_log (ltc6804_read_cell_voltages rd s) = hw_log s"
  by (simp_all add: ltc6804_read_cell_voltages_def)

lemma get_lowest_read:
  "get_lowest_voltage_cell_index (ltc6804_read_cell_voltages rd s) = get_lowest_voltage_cell_index s"
  by (rule get_lowest_cong) (rule read_average_nth)

subsection \<open>The bits of the two masks\<close>

lemma decide_cong:
  "average_voltage c' = average_voltage c \<Longrightarrow> average_voltage r' = average_voltage r \<Longrightarrow>
   decide thr c' r' = decide thr c r"
  by (simp add: decide_def)

lemma decide_self: "\<not> decide thr c c"
  by (simp add: decide_def)

text \<open>Against a reference that is not above the cell, the wrapping subtraction is the
  difference of the two values.\<close>

lemma decide_uint:
  "average_voltage r \<le> average_voltage c \<Longrightarrow>
   decide thr c r \<longleftrightarrow> uint thr < uint (average_voltage c) - uint (average_voltage r)"
  by (simp add: decide_def word_less_def uint_minus_simple_alt)

lemma bit_decide_step:
  "bit (decide_step thr cs m off i d) k \<longleftrightarrow>
     (if k = i - off \<and> k < 16 then decide thr (cs ! i) (cs ! m) else bit d k)"
  by (auto simp: decide_step_def bit_simps dest: bit_imp_le_length)

lemma bit_lower_loop:
  "bit (fold (decide_step thr cs m 0) [0..<4] d) k \<longleftrightarrow>
     (if k < 4 then decide thr (cs ! k) (cs ! m) else bit d k)"
proof -
  have a: "[0..<4] = [0, 1, 2, 3]" by (simp add: upt_rec)
  have "k = 0 \<or> k = 1 \<or> k = 2 \<or> k = 3 \<or> 4 \<le> k" by arith
  then show ?thesis
    by (auto simp: a bit_decide_step)
qed

lemma bit_upper_loop:
  "bit (fold (decide_step thr cs m 12) [12..<16] d) k \<longleftrightarrow>
     (if k < 4 then decide thr (cs ! (12 + k)) (cs ! m) else bit d k)"
proof -
  have a: "[12..<16] = [12, 13, 14, 15]" by (simp add: upt_rec)
  have "k = 0 \<or> k = 1 \<or> k = 2 \<or> k = 3 \<or> 4 \<le> k" by arith
  then show ?thesis
    by (auto simp: a bit_decide_step)
qed

lemma balance_discharge1:
  "g_discharge1 (balance thr rd s) =
     fold (decide_step thr (g_cell (ltc6804_read_cell_voltages rd s))
            (get_lowest_voltage_cell_index (ltc6804_read_cell_voltages rd s)) 0)
       [0..<4] (g_discharge1 s)"
  by (simp add: balance_def Let_def read_other_fields)

lemma balance_discharge2:
  "g_discharge2 (balance thr rd s) =
     fold (decide_step thr (g_cell (ltc6804_read_cell_voltages rd s))
            (get_lowest_voltage_cell_index (ltc6804_read_cell_voltages rd s)) 12)
       [12..<16] (g_discharge2 s)"
  by (simp add: balance_def Let_def read_other_fields)

lemma bit_balance_discharge1:
  "bit (g_discharge1 (balance thr rd s)) k \<longleftrightarrow>
     (if k < 4 then decide thr (g_cell s ! k) (g_cell s ! get_lowest_voltage_cell_index s)
      else bit (g_discharge1 s) k)"
  by (subst balance_discharge1, subst bit_lower_loop)
    (simp add: get_lowest_read decide_cong [OF read_average_nth read_average_nth])

lemma bit_balance_discharge2:
  "bit (g_discharge2 (balance thr rd s)) k \<longleftrightarrow>
     (if k < 4 then decide thr (g_cell s ! (12 + k)) (g_cell s ! get_lowest_voltage_cell_index s)
      else bit (g_discharge2 s) k)"
  by (subst balance_discharge2, subst bit_upper_loop)
    (simp add: get_lowest_read decide_cong [OF read_average_nth read_average_nth])

lemma lower_populated: "k < 4 \<Longrightarrow> k \<in> set populated"
  by (auto simp: populated_def)

lemma upper_populated: "k < 4 \<Longrightarrow> 12 + k \<in> set populated"
proof -
  assume "k < 4"
  then have "k = 0 \<or> k = 1 \<or> k = 2 \<or> k = 3" by arith
  then show ?thesis by (auto simp: populated_def)
qed

lemma g_cell_balance: "g_cell (balance thr rd s) = g_cell (ltc6804_read_cell_voltages rd s)"
  by (simp add: balance_def Let_def)

lemma balance_average_nth:
  "average_voltage (g_cell (balance thr rd s) ! i) = average_voltage (g_cell s ! i)"
  by (simp add: g_cell_balance read_average_nth)

lemma get_lowest_balance:
  "get_lowest_voltage_cell_index (balance thr rd s) = get_lowest_voltage_cell_index s"
  by (rule get_lowest_cong) (rule balance_average_nth)

text \<open>
  C7. For a cell in slot \<open>k\<close> of the Lower group, or slot \<open>12 + k\<close> of the Upper group
  (\<open>k < 4\<close>), the bit that \<open>balance\<close> leaves in the group's mask is set if and only if the
  cell's average minus the average of the selected reference cell exceeds
  \<open>BALANCE_THRESHOLD\<close>, the difference taken in the integers. The bit of the reference
  cell itself is clear.
\<close>

theorem discharge_bit_iff_difference_exceeds_threshold:
  assumes "k < 4"
  shows "(bit (g_discharge1 (balance thr rd s)) k \<longleftrightarrow>
            uint thr < uint (average_voltage (g_cell s ! k))
                       - uint (average_voltage (g_cell s ! get_lowest_voltage_cell_index s)))
       \<and> (bit (g_discharge2 (balance thr rd s)) k \<longleftrightarrow>
            uint thr < uint (average_voltage (g_cell s ! (12 + k)))
                       - uint (average_voltage (g_cell s ! get_lowest_voltage_cell_index s)))
       \<and> (get_lowest_voltage_cell_index s = k \<longrightarrow> \<not> bit (g_discharge1 (balance thr rd s)) k)
       \<and> (get_lowest_voltage_cell_index s = 12 + k
            \<longrightarrow> \<not> bit (g_discharge2 (balance thr rd s)) k)"
  using assms
  by (simp add: bit_balance_discharge1 bit_balance_discharge2 decide_self
      decide_uint [OF get_lowest_le] lower_populated upper_populated)

text \<open>
  Threshold 50, Lower cells at 100 and the Upper cell of slot 12 at 40: slot 12 is the
  reference, the bit of Lower cell 2 is set (100 - 40 = 60 > 50) and the bit of the
  reference is clear.
\<close>

theorem discharge_bit_iff_difference_exceeds_threshold_witness:
  "(2::nat) < 4 \<and> (0::nat) < 4
   \<and> get_lowest_voltage_cell_index (example_state averages_upper_low) = 12 + 0
   \<and> bit (g_discharge1 (balance 50 reading_slot2 (example_state averages_upper_low))) 2
   \<and> \<not> bit (g_discharge2 (balance 50 reading_slot2 (example_state averages_upper_low))) 0"
proof -
  have h2: "(2::nat) < 4" and h0: "(0::nat) < 4" by simp_all
  have r: "get_lowest_voltage_cell_index (example_state averages_upper_low) = 12 + 0"
    by code_simp
  have e: "uint (50 :: 16 word)
      < uint (average_voltage (g_cell (example_state averages_upper_low) ! 2))
        - uint (average_voltage (g_cell (example_state averages_upper_low)
                  ! get_lowest_voltage_cell_index (example_state averages_upper_low)))"
    by code_simp
  from discharge_bit_iff_difference_exceeds_threshold
         [OF h2, of 50 reading_slot2 "example_state averages_upper_low"] e
  have b2: "bit (g_discharge1 (balance 50 reading_slot2 (example_state averages_upper_low))) 2"
    by blast
  from discharge_bit_iff_difference_exceeds_threshold
         [OF h0, of 50 reading_slot2 "example_state averages_upper_low"] r
  have b0: "\<not> bit (g_discharge2 (balance 50 reading_slot2 (example_state averages_upper_low))) 0"
    by blast
  from h2 h0 r b2 b0 show ?thesis by blast
qed

text \<open>
  C1, as the code has it. There is one reference for both groups: for a cell in slot \<open>k\<close>
  of the Lower group or slot \<open>12 + k\<close> of the Upper group (\<open>k < 4\<close>), the bit in the
  group's mask is set if and only if the cell's average exceeds, by more than
  \<open>BALANCE_THRESHOLD\<close>, the least average among all eight populated slots 0 to 3 and 12
  to 15.
\<close>

theorem reference_is_minimum_over_both_groups:
  assumes "k < 4"
  shows "(bit (g_discharge1 (balance thr rd s)) k \<longleftrightarrow>
            uint thr < uint (average_voltage (g_cell s ! k))
                       - Min ((\<lambda>i. uint (average_voltage (g_cell s ! i))) ` set populated))
       \<and> (bit (g_discharge2 (balance thr rd s)) k \<longleftrightarrow>
            uint thr < uint (average_voltage (g_cell s ! (12 + k)))
                       - Min ((\<lambda>i. uint (average_voltage (g_cell s ! i))) ` set populated))"
proof -
  let ?r = "get_lowest_voltage_cell_index s"
  have "Min ((\<lambda>i. uint (average_voltage (g_cell s ! i))) ` set populated)
        = uint (average_voltage (g_cell s ! ?r))"
  proof (rule Min_eqI)
    show "finite ((\<lambda>i. uint (average_voltage (g_cell s ! i))) ` set populated)" by simp
    show "uint (average_voltage (g_cell s ! ?r))
            \<in> (\<lambda>i. uint (average_voltage (g_cell s ! i))) ` set populated"
      using get_lowest_populated [of s] by (rule imageI)
    fix y assume "y \<in> (\<lambda>i. uint (average_voltage (g_cell s ! i))) ` set populated"
    then obtain i where "i \<in> set populated" "y = uint (average_voltage (g_cell s ! i))" by auto
    then show "uint (average_voltage (g_cell s ! ?r)) \<le> y"
      using get_lowest_le [of i s] by (simp add: word_le_def)
  qed
  then show ?thesis
    using assms
    by (simp add: bit_balance_discharge1 bit_balance_discharge2
        decide_uint [OF get_lowest_le] lower_populated upper_populated)
qed

text \<open>
  Threshold 50, Lower cells at 100, Upper cell of slot 12 at 40: the least average of the
  eight is 40, so the bit of Lower cell 1 is set.
\<close>

theorem reference_is_minimum_over_both_groups_witness:
  "(1::nat) < 4
   \<and> Min ((\<lambda>i. uint (average_voltage (g_cell (example_state averages_upper_low) ! i)))
            ` set populated) = 40
   \<and> bit (g_discharge1 (balance 50 reading_slot2 (example_state averages_upper_low))) 1"
proof -
  have h: "(1::nat) < 4" by simp
  have m: "Min ((\<lambda>i. uint (average_voltage (g_cell (example_state averages_upper_low) ! i)))
            ` set populated) = 40"
    by code_simp
  have e: "uint (50 :: 16 word)
      < uint (average_voltage (g_cell (example_state averages_upper_low) ! 1)) - 40"
    by code_simp
  from reference_is_minimum_over_both_groups
         [OF h, of 50 reading_slot2 "example_state averages_upper_low"] e m
  have "bit (g_discharge1 (balance 50 reading_slot2 (example_state averages_upper_low))) 1"
    by simp
  with h m show ?thesis by blast
qed

text \<open>
  C1, as stated, fails. The two states below agree on slots 0 to 11, so on every Lower
  cell; only the average of the Upper cell in slot 12 differs (100 against 40). With
  threshold 50 no Lower cell is discharged in the first state and all four are in the
  second: the Lower decisions depend on an Upper average.
\<close>

theorem lower_decisions_depend_on_upper_average:
  "map average_voltage (take 12 (g_cell (example_state averages_level)))
     = map average_voltage (take 12 (g_cell (example_state averages_upper_low)))
   \<and> g_discharge1 (balance 50 reading_slot2 (example_state averages_level)) = 0
   \<and> g_discharge1 (balance 50 reading_slot2 (example_state averages_upper_low)) = 0xF"
  by code_simp

text \<open>
  C9. A second run of \<open>balance\<close> right after a first one leaves both masks as the first
  run left them, whatever the masks held before and whatever raw voltages the two runs
  read; \<open>balance\<close> does not change any average.
\<close>

theorem balance_masks_idempotent:
  "g_discharge1 (balance thr rd' (balance thr rd s)) = g_discharge1 (balance thr rd s) \<and>
   g_discharge2 (balance thr rd' (balance thr rd s)) = g_discharge2 (balance thr rd s)"
proof
  show "g_discharge1 (balance thr rd' (balance thr rd s)) = g_discharge1 (balance thr rd s)"
    by (rule bit_eqI)
      (simp add: bit_balance_discharge1 get_lowest_balance
        decide_cong [OF balance_average_nth balance_average_nth])
  show "g_discharge2 (balance thr rd' (balance thr rd s)) = g_discharge2 (balance thr rd s)"
    by (rule bit_eqI)
      (simp add: bit_balance_discharge2 get_lowest_balance
        decide_cong [OF balance_average_nth balance_average_nth])
qed

subsection \<open>The actuation step\<close>

text \<open>
  C4. The actuation step of \<open>balance\<close> appends six events to the hardware log: under
  \<open>CSBI1\<close> a configuration write of \<open>g_discharge1\<close>, and under \<open>CSBI2\<close> a configuration
  write of the same \<open>g_discharge1\<close>. No write carries \<open>g_discharge2\<close>: the log is the same
  whatever \<open>g_discharge2\<close> held on entry.
\<close>

theorem second_config_write_repeats_first_mask:
  "hw_log (balance thr rd s) =
     hw_log s @
       [Output_low CSBI1, Write_config (g_discharge1 (balance thr rd s)), Output_high CSBI1,
        Output_low CSBI2, Write_config (g_discharge1 (balance thr rd s)), Output_high CSBI2]
   \<and> hw_log (balance thr rd (s\<lparr>g_discharge2 := x\<rparr>)) = hw_log (balance thr rd s)"
  by (simp add: balance_def Let_def ltc6804_read_cell_voltages_def
      get_lowest_voltage_cell_index_def)

subsection \<open>The per-cell discharge constants\<close>

text \<open>
  C10. Two states with at least sixteen cell slots whose cells differ at most in their
  \<open>discharge\<close> fields, and which hold the same masks, leave \<open>balance\<close> with the same
  \<open>g_discharge1\<close> and the same \<open>g_discharge2\<close>: bit \<open>k\<close> of \<open>g_discharge1\<close> is the decision
  for the cell in slot \<open>k\<close> and bit \<open>k\<close> of \<open>g_discharge2\<close> the decision for the cell in slot
  \<open>12 + k\<close>, and a decision reads averages only.
\<close>

theorem masks_independent_of_discharge_fields:
  assumes same: "map (\<lambda>c. c\<lparr>discharge := 0\<rparr>) (g_cell s')
                 = map (\<lambda>c. c\<lparr>discharge := 0\<rparr>) (g_cell s)"
    and d1: "g_discharge1 s' = g_discharge1 s"
    and d2: "g_discharge2 s' = g_discharge2 s"
    and len: "16 \<le> length (g_cell s)"
  shows "g_discharge1 (balance thr rd s') = g_discharge1 (balance thr rd s) \<and>
         g_discharge2 (balance thr rd s') = g_discharge2 (balance thr rd s) \<and>
         (\<forall>k<4. bit (g_discharge1 (balance thr rd s')) k \<longleftrightarrow>
            decide thr (g_cell s ! k) (g_cell s ! get_lowest_voltage_cell_index s)) \<and>
         (\<forall>k<4. bit (g_discharge2 (balance thr rd s')) k \<longleftrightarrow>
            decide thr (g_cell s ! (12 + k)) (g_cell s ! get_lowest_voltage_cell_index s))"
proof -
  have len': "length (g_cell s') = length (g_cell s)"
    using same by (rule map_eq_imp_length_eq)
  have avg: "average_voltage (g_cell s' ! i) = average_voltage (g_cell s ! i)" if "i < 16" for i
  proof -
    have i: "i < length (g_cell s)" using that len by simp
    have "map (\<lambda>c. c\<lparr>discharge := 0\<rparr>) (g_cell s') ! i
          = map (\<lambda>c. c\<lparr>discharge := 0\<rparr>) (g_cell s) ! i"
      using same by simp
    then have "(g_cell s' ! i)\<lparr>discharge := 0\<rparr> = (g_cell s ! i)\<lparr>discharge := 0\<rparr>"
      using i len' by simp
    then have "average_voltage ((g_cell s' ! i)\<lparr>discharge := 0\<rparr>)
             = average_voltage ((g_cell s ! i)\<lparr>discharge := 0\<rparr>)"
      by (rule arg_cong)
    then show ?thesis by simp
  qed
  have pop: "i < 16" if "i \<in> set populated" for i
    using that by (auto simp: populated_def)
  have low: "get_lowest_voltage_cell_index s' = get_lowest_voltage_cell_index s"
    by (rule get_lowest_cong) (simp add: avg pop)
  have r: "get_lowest_voltage_cell_index s < 16"
    by (rule pop) (rule get_lowest_populated)
  have dec: "decide thr (g_cell s' ! i) (g_cell s' ! get_lowest_voltage_cell_index s)
           = decide thr (g_cell s ! i) (g_cell s ! get_lowest_voltage_cell_index s)"
    if "i < 16" for i
    by (rule decide_cong) (simp_all add: avg that r)
  have m1: "g_discharge1 (balance thr rd s') = g_discharge1 (balance thr rd s)"
    by (rule bit_eqI) (simp add: bit_balance_discharge1 low dec d1)
  have m2: "g_discharge2 (balance thr rd s') = g_discharge2 (balance thr rd s)"
    by (rule bit_eqI) (simp add: bit_balance_discharge2 low dec d2)
  have b1: "\<forall>k<4. bit (g_discharge1 (balance thr rd s')) k \<longleftrightarrow>
            decide thr (g_cell s ! k) (g_cell s ! get_lowest_voltage_cell_index s)"
    by (simp add: bit_balance_discharge1 low dec)
  have b2: "\<forall>k<4. bit (g_discharge2 (balance thr rd s')) k \<longleftrightarrow>
            decide thr (g_cell s ! (12 + k)) (g_cell s ! get_lowest_voltage_cell_index s)"
    by (simp add: bit_balance_discharge2 low dec)
  from m1 m2 b1 b2 show ?thesis by blast
qed

text \<open>
  \<open>init_cells\<close> gives the cells 0 to 3 the constants 0x00, 0x02, 0x04, 0x08 and changes
  nothing else of the example state; the masks after \<open>balance\<close> are the same with and
  without it.
\<close>

theorem masks_independent_of_discharge_fields_witness:
  "map (\<lambda>c. c\<lparr>discharge := 0\<rparr>) (g_cell (init_cells (example_state averages_upper_low)))
     = map (\<lambda>c. c\<lparr>discharge := 0\<rparr>) (g_cell (example_state averages_upper_low))
   \<and> map discharge (take 4 (g_cell (init_cells (example_state averages_upper_low))))
       = [0x00, 0x02, 0x04, 0x08]
   \<and> map discharge (take 4 (g_cell (example_state averages_upper_low))) = [0, 0, 0, 0]
   \<and> 16 \<le> length (g_cell (example_state averages_upper_low))
   \<and> g_discharge1 (balance 50 reading_slot2 (init_cells (example_state averages_upper_low)))
       = g_discharge1 (balance 50 reading_slot2 (example_state averages_upper_low))
   \<and> g_discharge2 (balance 50 reading_slot2 (init_cells (example_state averages_upper_low)))
       = g_discharge2 (balance 50 reading_slot2 (example_state averages_upper_low))"
proof -
  have h1: "map (\<lambda>c. c\<lparr>discharge := 0\<rparr>) (g_cell (init_cells (example_state averages_upper_low)))
     = map (\<lambda>c. c\<lparr>discharge := 0\<rparr>) (g_cell (example_state averages_upper_low))"
    by code_simp
  have h2: "g_discharge1 (init_cells (example_state averages_upper_low))
            = g_discharge1 (example_state averages_upper_low)"
    by code_simp
  have h3: "g_discharge2 (init_cells (example_state averages_upper_low))
            = g_discharge2 (example_state averages_upper_low)"
    by code_simp
  have h4: "16 \<le> length (g_cell (example_state averages_upper_low))"
    by code_simp
  have e1: "map discharge (take 4 (g_cell (init_cells (example_state averages_upper_low))))
            = [0x00, 0x02, 0x04, 0x08]"
    by code_simp
  have e2: "map discharge (take 4 (g_cell (example_state averages_upper_low))) = [0, 0, 0, 0]"
    by code_simp
  from masks_independent_of_discharge_fields [OF h1 h2 h3 h4, of 50 reading_slot2]
  have "g_discharge1 (balance 50 reading_slot2 (init_cells (example_state averages_upper_low)))
       = g_discharge1 (balance 50 reading_slot2 (example_state averages_upper_low))"
    and "g_discharge2 (balance 50 reading_slot2 (init_cells (example_state averages_upper_low)))
       = g_discharge2 (balance 50 reading_slot2 (example_state averages_upper_low))"
    by blast+
  with h1 h4 e1 e2 show ?thesis by blast
qed

section \<open>The telemetry page\<close>

lemma fold_update_upt:
  "n \<le> length vs \<Longrightarrow> fold (\<lambda>i v. v[i := f i]) [0..<n] vs = map f [0..<n] @ drop n vs"
proof (induction n)
  case 0
  show ?case by simp
next
  case (Suc n)
  then have n: "n < length vs" by simp
  have d: "drop n vs = vs ! n # drop (Suc n) vs"
    using n by (simp add: Cons_nth_drop_Suc)
  have "fold (\<lambda>i v. v[i := f i]) [0..<Suc n] vs = (map f [0..<n] @ drop n vs)[n := f n]"
    using Suc by simp
  also have "\<dots> = map f [0..<n] @ (drop n vs)[0 := f n]"
    by (simp add: list_update_append)
  finally show ?case by (simp add: d)
qed

lemma copy_voltages_eq:
  "copy_voltages cs vs = map average_voltage (take (length vs) cs) @ drop (length cs) vs"
proof -
  let ?n = "min (length cs) (length vs)"
  have "copy_voltages cs vs = map (\<lambda>i. average_voltage (cs ! i)) [0..<?n] @ drop ?n vs"
    unfolding copy_voltages_def by (rule fold_update_upt) simp
  moreover have "map (\<lambda>i. average_voltage (cs ! i)) [0..<?n] = map average_voltage (take ?n cs)"
    by (simp add: list_eq_iff_nth_eq)
  moreover have "take ?n cs = take (length vs) cs"
    by (simp add: min_def)
  moreover have "drop ?n vs = drop (length cs) vs"
    by (simp add: min_def)
  ultimately show ?thesis by simp
qed

text \<open>
  C3, as the code has it. \<open>update_bms_page\<close> writes into \<open>voltages[i]\<close> the average of the
  cell in raw slot \<open>i\<close>, for every \<open>i\<close> below both \<open>N_CELLS\<close> and \<open>N_CELLS_FINAL\<close>,
  populated or not; entries from \<open>N_CELLS\<close> on keep what they held. So Lower cells 0 to 3
  are at positions 0 to 3, the slots 4 to 11 are copied to positions 4 to 11 like any
  other, and an Upper cell of slot 12 to 15 is at position 12 to 15 when the array is
  that long.
\<close>

theorem page_voltages_copied_by_slot_index:
  "voltages (g_bms_page (update_bms_page int8_of s)) =
     map average_voltage (take (length (voltages (g_bms_page s))) (g_cell s))
     @ drop (length (g_cell s)) (voltages (g_bms_page s))"
  by (simp add: update_bms_page_def copy_voltages_eq)

text \<open>
  C3, as stated, fails. With the average of slot \<open>i\<close> at \<open>i + 1\<close>, the Upper cells hold
  13 to 16. A page of eight entries ends with 5 to 8 at positions 4 to 7, the averages
  of the unused slots 4 to 7; a page of sixteen entries has the Upper cells at positions
  12 to 15.
\<close>

theorem page_positions_4_to_7_hold_slots_4_to_7:
  "map average_voltage (drop 12 (g_cell (example_state averages_counting))) = [13, 14, 15, 16]
   \<and> voltages (g_bms_page (update_bms_page of_int (example_state averages_counting)))
       = [1, 2, 3, 4, 5, 6, 7, 8]
   \<and> voltages (g_bms_page (update_bms_page of_int (wide_page (example_state averages_counting))))
       = [1, 2, 3, 4, 5, 6, 7, 8, 9, 10, 11, 12, 13, 14, 15, 16]"
  by code_simp

section \<open>The order of one iteration of the main loop\<close>

lemma g_cell_main_loop_body:
  "g_cell (main_loop_body thr n int8_of rd1 rd2 s) =
     map (update_average n)
       (g_cell (ltc6804_read_cell_voltages rd2 (ltc6804_read_cell_voltages rd1 s)))"
  by (simp add: main_loop_body_def update_bms_page_def print_cell_voltages_def g_cell_balance)

lemma masks_main_loop_body:
  "g_discharge1 (main_loop_body thr n int8_of rd1 rd2 s)
     = g_discharge1 (balance thr rd2 (ltc6804_read_cell_voltages rd1 s))"
  "g_discharge2 (main_loop_body thr n int8_of rd1 rd2 s)
     = g_discharge2 (balance thr rd2 (ltc6804_read_cell_voltages rd1 s))"
  by (simp_all add: main_loop_body_def update_bms_page_def print_cell_voltages_def)

text \<open>
  C2, as the code has it. In one iteration of the main loop the moving-average update
  runs exactly once for every cell, on the raw voltages of the iteration's reads, but
  after \<open>balance\<close>: the bits of both masks are the decisions on the averages the cells held
  when the iteration began. The samples acquired in an iteration reach the decisions of
  the next iteration.
\<close>

theorem decisions_use_averages_of_previous_cycle:
  assumes "k < 4"
  shows "g_cell (main_loop_body thr n int8_of rd1 rd2 s) =
           map (update_average n)
             (g_cell (ltc6804_read_cell_voltages rd2 (ltc6804_read_cell_voltages rd1 s)))
       \<and> (bit (g_discharge1 (main_loop_body thr n int8_of rd1 rd2 s)) k \<longleftrightarrow>
            decide thr (g_cell s ! k) (g_cell s ! get_lowest_voltage_cell_index s))
       \<and> (bit (g_discharge2 (main_loop_body thr n int8_of rd1 rd2 s)) k \<longleftrightarrow>
            decide thr (g_cell s ! (12 + k)) (g_cell s ! get_lowest_voltage_cell_index s))"
  using assms
  by (simp add: g_cell_main_loop_body masks_main_loop_body
      bit_balance_discharge1 bit_balance_discharge2 get_lowest_read
      decide_cong [OF read_average_nth read_average_nth])

text \<open>
  All averages at 0 and a reading of 4000 for slot 2: before the iteration the decision
  for slot 2 is negative, so its bit is clear after the iteration.
\<close>

theorem decisions_use_averages_of_previous_cycle_witness:
  "(2::nat) < 4
   \<and> \<not> decide 50 (g_cell (example_state (replicate 16 0)) ! 2)
          (g_cell (example_state (replicate 16 0))
             ! get_lowest_voltage_cell_index (example_state (replicate 16 0)))
   \<and> \<not> bit (g_discharge1
          (main_loop_body 50 4 of_int reading_slot2 reading_slot2
             (example_state (replicate 16 0)))) 2"
proof -
  have h: "(2::nat) < 4" by simp
  have e: "\<not> decide 50 (g_cell (example_state (replicate 16 0)) ! 2)
          (g_cell (example_state (replicate 16 0))
             ! get_lowest_voltage_cell_index (example_state (replicate 16 0)))"
    by code_simp
  from decisions_use_averages_of_previous_cycle
         [OF h, of 50 4 of_int reading_slot2 reading_slot2 "example_state (replicate 16 0)"] e
  have "\<not> bit (g_discharge1
          (main_loop_body 50 4 of_int reading_slot2 reading_slot2
             (example_state (replicate 16 0)))) 2"
    by blast
  with h e show ?thesis by blast
qed

text \<open>
  C2, as stated, fails. From all averages at 0, one iteration with a reading of 4000 for
  slot 2 (four samples, threshold 50) leaves slot 2 with the average 1000, which
  incorporates the new sample and calls for a discharge against the reference; the mask
  the iteration computed has the bit of slot 2 clear.
\<close>

theorem first_cycle_decides_before_averaging:
  "average_voltage
     (g_cell (main_loop_body 50 4 of_int reading_slot2 reading_slot2
                (example_state (replicate 16 0))) ! 2) = 1000
   \<and> decide 50
        (g_cell (main_loop_body 50 4 of_int reading_slot2 reading_slot2
                   (example_state (replicate 16 0))) ! 2)
        (g_cell (main_loop_body 50 4 of_int reading_slot2 reading_slot2
                   (example_state (replicate 16 0)))
           ! get_lowest_voltage_cell_index
               (main_loop_body 50 4 of_int reading_slot2 reading_slot2
                  (example_state (replicate 16 0))))
   \<and> \<not> bit (g_discharge1
              (main_loop_body 50 4 of_int reading_slot2 reading_slot2
                 (example_state (replicate 16 0)))) 2"
  by code_simp

section \<open>The moving average\<close>

lemma fold_shift_step:
  "Suc k \<le> length smp \<Longrightarrow>
   fold shift_step [0..<k] (smp, s0) =
     (take k (tl smp) @ drop k smp, s0 + sum_list (map ucast (take k smp)))"
proof (induction k)
  case 0
  show ?case by simp
next
  case (Suc k)
  then have k: "Suc k < length smp" by simp
  have IH: "fold shift_step [0..<k] (smp, s0) =
     (take k (tl smp) @ drop k smp, s0 + sum_list (map ucast (take k smp)))"
    using Suc by simp
  have len: "length (take k (tl smp)) = k" using k by simp
  have at_k: "(take k (tl smp) @ drop k smp) ! k = smp ! k"
    using k by (simp add: nth_append len)
  have at_Sk: "(take k (tl smp) @ drop k smp) ! Suc k = smp ! Suc k"
    using k by (simp add: nth_append len)
  have upd: "(take k (tl smp) @ drop k smp)[k := smp ! Suc k]
             = take (Suc k) (tl smp) @ drop (Suc k) smp"
  proof -
    have d: "drop k smp = smp ! k # drop (Suc k) smp"
      using k by (simp add: Cons_nth_drop_Suc)
    have t: "take (Suc k) (tl smp) = take k (tl smp) @ [smp ! Suc k]"
      using k by (simp add: take_Suc_conv_app_nth nth_tl)
    have "(take k (tl smp) @ drop k smp)[k := smp ! Suc k]
          = take k (tl smp) @ (drop k smp)[0 := smp ! Suc k]"
      using k by (simp add: list_update_append)
    then show ?thesis by (simp add: d t)
  qed
  have sum: "sum_list (map ucast (take (Suc k) smp)) =
             (sum_list (map ucast (take k smp)) + ucast (smp ! k) :: 32 word)"
    using k by (simp add: take_Suc_conv_app_nth)
  have "fold shift_step [0..<Suc k] (smp, s0) = shift_step k (fold shift_step [0..<k] (smp, s0))"
    by simp
  also have "\<dots> = shift_step k
      (take k (tl smp) @ drop k smp, s0 + sum_list (map ucast (take k smp)))"
    by (simp only: IH)
  also have "\<dots> = (take (Suc k) (tl smp) @ drop (Suc k) smp,
      s0 + sum_list (map ucast (take (Suc k) smp)))"
    by (simp add: shift_step_def at_k at_Sk upd sum add.assoc)
  finally show ?case .
qed

lemma sum_list_unat_bound:
  "sum_list (map unat (xs :: 16 word list)) \<le> length xs * 65535"
proof (induction xs)
  case Nil
  show ?case by simp
next
  case (Cons x xs)
  have "unat x < 2 ^ LENGTH(16)" by (rule unsigned_less)
  then have "unat x \<le> 65535" by simp
  with Cons show ?case by simp
qed

lemma unat_sum_list_ucast:
  "length xs \<le> 65536 \<Longrightarrow>
   unat (sum_list (map ucast (xs :: 16 word list)) :: 32 word) = sum_list (map unat xs)"
proof (induction xs)
  case Nil
  show ?case by simp
next
  case (Cons x xs)
  have b: "sum_list (map unat xs) \<le> length xs * 65535" by (rule sum_list_unat_bound)
  have x: "unat x \<le> 65535" using unsigned_less [of x, where 'a = nat] by simp
  have IH: "unat (sum_list (map ucast xs) :: 32 word) = sum_list (map unat xs)"
    using Cons by simp
  have ux: "unat (ucast x :: 32 word) = unat x"
    using x by (simp add: unsigned_ucast_eq take_bit_nat_eq_self)
  have "unat x + sum_list (map unat xs) < 2 ^ 32"
    using b x Cons.prems by simp
  then show ?case
    by (simp add: unat_word_ariths IH ux)
qed


text \<open>
  What one update does, for any sample count up to 65536: the history is shifted by one
  and the new sample appended, and the average is the truncated mean of the new sample
  and of the previous history without its last entry. The entry that the shift drops is
  summed; the entry written in the previous update is not.
\<close>

lemma update_average_samples:
  assumes "length (samples c) = n" and "0 < n"
  shows "samples (update_average n c) = tl (samples c) @ [voltage c]"
proof -
  have k: "Suc (n - 1) \<le> length (samples c)" using assms by simp
  have "take (n - 1) (tl (samples c)) = tl (samples c)" using assms by simp
  moreover have "drop (n - 1) (samples c) = [last (samples c)]"
    using assms by (cases "samples c" rule: rev_cases) simp_all
  moreover have "length (tl (samples c)) = n - 1" using assms by simp
  ultimately show ?thesis
    unfolding update_average_def Let_def fold_shift_step [OF k]
    by (simp add: list_update_append)
qed

lemma update_average_unat:
  assumes "length (samples c) = n" and "0 < n" and "n \<le> 65536"
  shows "unat (average_voltage (update_average n c)) =
           (sum_list (map unat (butlast (samples c))) + unat (voltage c)) div n"
proof -
  let ?S = "sum_list (map unat (butlast (samples c)))"
  have k: "Suc (n - 1) \<le> length (samples c)" using assms by simp
  have bl: "take (n - 1) (samples c) = butlast (samples c)"
    using assms by (simp add: butlast_conv_take)
  have lenb: "length (butlast (samples c)) = n - 1" using assms by simp
  have S: "unat (sum_list (map ucast (butlast (samples c))) :: 32 word) = ?S"
    by (rule unat_sum_list_ucast) (use lenb assms in simp)
  have Sb: "?S \<le> (n - 1) * 65535"
    using sum_list_unat_bound [of "butlast (samples c)"] lenb by simp
  have v: "unat (voltage c) \<le> 65535"
    using unsigned_less [of "voltage c", where 'a = nat] by simp
  have uv: "unat (ucast (voltage c) :: 32 word) = unat (voltage c)"
    using v by (simp add: unsigned_ucast_eq take_bit_nat_eq_self)
  have tot: "?S + unat (voltage c) \<le> n * 65535"
  proof -
    have "?S + unat (voltage c) \<le> (n - 1) * 65535 + 65535" using Sb v by simp
    also have "\<dots> = n * 65535" using assms(2) by (cases n) simp_all
    finally show ?thesis .
  qed
  have n32: "n * 65535 < 2 ^ 32" using assms(3) by simp
  have sum: "unat (sum_list (map ucast (butlast (samples c))) + ucast (voltage c) :: 32 word)
             = ?S + unat (voltage c)"
    using tot n32 by (simp add: unat_word_ariths S uv)
  have un: "unat (of_nat n :: 32 word) = n"
    using assms(3) by (simp add: unat_of_nat)
  have q: "(?S + unat (voltage c)) div n \<le> 65535"
  proof -
    have "(?S + unat (voltage c)) div n \<le> (n * 65535) div n" using tot by (rule div_le_mono)
    then show ?thesis using assms(2) by simp
  qed
  have "average_voltage (update_average n c)
        = ucast ((sum_list (map ucast (butlast (samples c))) + ucast (voltage c) :: 32 word) div of_nat n)"
    unfolding update_average_def Let_def fold_shift_step [OF k] bl by simp
  then show ?thesis
    using q by (simp add: unsigned_ucast_eq unat_div sum un take_bit_nat_eq_self)
qed

lemma feed_samples:
  assumes "length (samples c) = n" and "0 < n"
  shows "samples (feed n v c) = tl (samples c) @ [v]"
  using update_average_samples [of "c\<lparr>voltage := v\<rparr>" n] assms by (simp add: feed_def)

lemma feed_average:
  assumes "length (samples c) = n" and "0 < n" and "n \<le> 65536"
  shows "unat (average_voltage (feed n v c)) =
           (sum_list (map unat (butlast (samples c))) + unat v) div n"
  using update_average_unat [of "c\<lparr>voltage := v\<rparr>" n] assms by (simp add: feed_def)

text \<open>The first sample fed to an all-zero history of \<open>n\<close> entries gives \<open>v div n\<close>.\<close>

lemma first_sample_average:
  assumes "samples c = replicate n 0" and "0 < n" and "n \<le> 65536"
  shows "unat (average_voltage (feed n v c)) = unat v div n"
proof -
  have len: "length (samples c) = n" using assms(1) by simp
  have zero: "sum_list (map unat (butlast (samples c))) = 0"
    using assms(1) by (simp add: butlast_conv_take sum_list_replicate)
  show ?thesis
    unfolding feed_average [OF len assms(2,3)] zero by simp
qed

text \<open>
  C5 fails on the code. With four samples per cell, an all-zero history fed 400 and then
  800 holds 0, 0, 400, 800, whose truncated mean is 300, but \<open>average_voltage\<close> is 200:
  the sum of the second update is 0 + 0 + 0 + 800. Fed 100 four times, the history is
  100 four times and \<open>average_voltage\<close> is 75; the fifth equal sample gives 100.
\<close>

theorem average_skips_previous_sample:
  "samples (feed 4 800 (feed 4 400 (example_cell 0))) = [0, 0, 400, 800]
   \<and> sum_list (map unat (samples (feed 4 800 (feed 4 400 (example_cell 0))))) div 4 = 300
   \<and> average_voltage (feed 4 800 (feed 4 400 (example_cell 0))) = 200
   \<and> samples (feed 4 100 (feed 4 100 (feed 4 100 (feed 4 100 (example_cell 0)))))
       = [100, 100, 100, 100]
   \<and> average_voltage (feed 4 100 (feed 4 100 (feed 4 100 (feed 4 100 (example_cell 0))))) = 75
   \<and> average_voltage
        (feed 4 100 (feed 4 100 (feed 4 100 (feed 4 100 (feed 4 100 (example_cell 0)))))) = 100"
  by code_simp

end
